theory Spec2Isabelle
  imports Complex_Main "HOL-Library.Sublist"
begin

section \<open>JavaScript strings\<close>

text \<open>
  A JavaScript string is a sequence of UTF-16 code units; every string operation of
  \<^verbatim>\<open>src/server.ts\<close> (\<^verbatim>\<open>indexOf\<close>, \<^verbatim>\<open>slice\<close>, \<^verbatim>\<open>split\<close>, \<^verbatim>\<open>trim\<close>,
  \<^verbatim>\<open>startsWith\<close>, \<^verbatim>\<open>replace\<close>, \<^verbatim>\<open>join\<close>, \<^verbatim>\<open>includes\<close>) works on code units.
  A code unit is modelled by its number, and \<open>lit\<close> writes a literal of the source.
\<close>

type_synonym jstring = "nat list"

definition lit :: "string \<Rightarrow> jstring" where
  "lit s = map of_char s"

text \<open>
  The code units that \<^verbatim>\<open>String.prototype.trim\<close> removes and that \<^verbatim>\<open>\s\<close> matches in a
  regular expression: ECMAScript's WhiteSpace and LineTerminator (TAB, LF, VT, FF, CR,
  SPACE, NBSP, U+1680, U+2000..U+200A, U+2028, U+2029, U+202F, U+205F, U+3000, U+FEFF).
\<close>

definition is_space :: "nat \<Rightarrow> bool" where
  "is_space c =
     (c \<in> {9, 10, 11, 12, 13, 32, 160, 5760, 8232, 8233, 8239, 8287, 12288, 65279}
      \<or> (8192 \<le> c \<and> c \<le> 8202))"

text \<open>\<^verbatim>\<open>s.indexOf(p)\<close>: the first position where \<open>p\<close> occurs, \<open>None\<close> for \<^verbatim>\<open>-1\<close>.\<close>

fun indexOf :: "'a list \<Rightarrow> 'a list \<Rightarrow> nat option" where
  "indexOf [] p = (if p = [] then Some 0 else None)"
| "indexOf (x # xs) p =
     (if prefix p (x # xs) then Some 0 else map_option Suc (indexOf xs p))"

definition includes_str :: "'a list \<Rightarrow> 'a list \<Rightarrow> bool" where
  "includes_str s p = (indexOf s p \<noteq> None)"

definition startsWith :: "'a list \<Rightarrow> 'a list \<Rightarrow> bool" where
  "startsWith s p = prefix p s"

text \<open>\<^verbatim>\<open>s.split(sep)\<close> for a separator of one code unit (the source splits at a line feed).\<close>

fun split_str :: "'a \<Rightarrow> 'a list \<Rightarrow> 'a list list" where
  "split_str sep [] = [[]]"
| "split_str sep (x # xs) =
     (if x = sep then [] # split_str sep xs
      else (case split_str sep xs of l # ls \<Rightarrow> (x # l) # ls | [] \<Rightarrow> [[x]]))"

text \<open>\<^verbatim>\<open>s.trim()\<close> removes the white space at both ends, \<open>trim_end\<close> at the end.\<close>

definition trim_end :: "jstring \<Rightarrow> jstring" where
  "trim_end s = rev (dropWhile is_space (rev s))"

definition trim :: "jstring \<Rightarrow> jstring" where
  "trim s = trim_end (dropWhile is_space s)"

fun join :: "'a list \<Rightarrow> 'a list list \<Rightarrow> 'a list" where
  "join sep [] = []"
| "join sep [x] = x"
| "join sep (x # y # ys) = x @ sep @ join sep (y # ys)"

text \<open>The decimal digits of a number, as a template literal renders an integer.\<close>

fun decimal :: "nat \<Rightarrow> jstring" where
  "decimal n = (if n < 10 then [48 + n] else decimal (n div 10) @ [48 + n mod 10])"

declare decimal.simps [simp del]

definition LF :: nat where
  "LF = 10"

definition DELIMITER :: jstring where
  "DELIMITER = [LF, LF]"

section \<open>Values of the platform\<close>

text \<open>
  What \<^verbatim>\<open>JSON.parse\<close> returns. A number is the value of the double it was read as
  (negative zero being zero); an object lists each of its keys once.
\<close>

datatype json =
    JNull
  | JBool bool
  | JNum rat
  | JStr jstring
  | JArr "json list"
  | JObj "(jstring \<times> json) list"

text \<open>
  What a \<^verbatim>\<open>throw\<close> or a rejected promise carries: an \<^verbatim>\<open>Error\<close> object, given by
  its \<^verbatim>\<open>name\<close> and its \<^verbatim>\<open>message\<close> in this order, or a value that is not an
  \<^verbatim>\<open>instanceof Error\<close>.
\<close>

datatype thrown = ErrorObj jstring jstring | NonError

definition AbortError :: thrown where
  "AbortError = ErrorObj (lit ''AbortError'') (lit ''This operation was aborted'')"

definition TypeError_null :: "string \<Rightarrow> thrown" where
  "TypeError_null k =
     ErrorObj (lit ''TypeError'')
       (lit ''Cannot read properties of null (reading '' @ [39] @ lit k @ [39] @ lit '')'')"

text \<open>
  The parts of the platform the relay calls and the repository does not define.
  \<^item> \<open>JSON_parse\<close>: \<^verbatim>\<open>JSON.parse\<close>; \<open>Inl m\<close> is a \<^verbatim>\<open>SyntaxError\<close> with message \<open>m\<close>.
  \<^item> \<open>ToString\<close>: the conversion \<^verbatim>\<open>new Error(v)\<close> applies to a message \<open>v\<close> that is
    not a string (number formatting, array joining, object to primitive); it can throw.
  \<^item> \<open>decoder_new\<close>, \<open>decoder_step\<close>, \<open>decoder_pending\<close>: \<^verbatim>\<open>new TextDecoder('utf-8')\<close>,
    a machine that consumes one byte at a time and keeps its state between
    \<^verbatim>\<open>decode(value, { stream: true })\<close> calls; \<open>decoder_pending\<close> holds when an
    incomplete byte sequence is buffered.
\<close>

record 'd platform =
  JSON_parse :: "jstring \<Rightarrow> jstring + json"
  ToString :: "json \<Rightarrow> thrown + jstring"
  decoder_new :: 'd
  decoder_step :: "'d \<Rightarrow> char \<Rightarrow> 'd \<times> jstring"
  decoder_pending :: "'d \<Rightarrow> bool"

text \<open>\<^verbatim>\<open>decoder.decode(value, { stream: true })\<close> on the bytes of one chunk.\<close>

fun decode :: "'d platform \<Rightarrow> 'd \<Rightarrow> char list \<Rightarrow> 'd \<times> jstring" where
  "decode P d [] = (d, [])"
| "decode P d (b # bs) =
     (case decoder_step P d b of (d', s) \<Rightarrow>
        (case decode P d' bs of (d'', s') \<Rightarrow> (d'', s @ s')))"

text \<open>
  \<^verbatim>\<open>decoder.decode()\<close> at the end of the stream: U+FFFD for a pending incomplete
  sequence, nothing otherwise.
\<close>

definition decode_end :: "'d platform \<Rightarrow> 'd \<Rightarrow> jstring" where
  "decode_end P d = (if decoder_pending P d then [65533] else [])"

section \<open>processBuffer\<close>

text \<open>
  Lines 155-160: the payload of a raw event. Each line is trimmed, the lines that then
  start with \<^verbatim>\<open>data:\<close> are kept, \<^verbatim>\<open>/^data:\s*/\<close> is removed from each, and they are
  joined with a line feed.
\<close>

definition replace_data :: "jstring \<Rightarrow> jstring" where
  "replace_data line =
     (if startsWith line (lit ''data:'')
      then dropWhile is_space (drop (length (lit ''data:'')) line)
      else line)"

definition extract_payload :: "jstring \<Rightarrow> jstring" where
  "extract_payload rawEvent =
     join [LF]
       (map replace_data
         (filter (\<lambda>line. startsWith line (lit ''data:''))
           (map trim (split_str LF rawEvent))))"

text \<open>
  A property read \<^verbatim>\<open>v.k\<close> on a value that is not \<^verbatim>\<open>null\<close>, for the keys the source
  reads (\<^verbatim>\<open>type\<close>, \<^verbatim>\<open>delta\<close>, \<^verbatim>\<open>choices\<close>, \<^verbatim>\<open>content\<close>, \<^verbatim>\<open>text\<close>, \<^verbatim>\<open>error\<close>,
  \<^verbatim>\<open>message\<close>): \<open>None\<close> is \<^verbatim>\<open>undefined\<close>. Only an object has such a property.
\<close>

fun get :: "json \<Rightarrow> string \<Rightarrow> json option" where
  "get (JObj kvs) k = map_of kvs (lit k)"
| "get v k = None"

text \<open>\<^verbatim>\<open>typeof v === 'string'\<close>, with the string.\<close>

fun as_string :: "json option \<Rightarrow> jstring option" where
  "as_string (Some (JStr s)) = Some s"
| "as_string v = None"

fun truthy :: "json \<Rightarrow> bool" where
  "truthy JNull = False"
| "truthy (JBool b) = b"
| "truthy (JNum n) = (n \<noteq> 0)"
| "truthy (JStr s) = (s \<noteq> [])"
| "truthy (JArr xs) = True"
| "truthy (JObj kvs) = True"

definition DEFAULT_MESSAGE :: jstring where
  "DEFAULT_MESSAGE = lit ''The OpenAPI service returned an unknown error.''"

text \<open>
  Line 194: \<^verbatim>\<open>parsed.error?.message ?? '...'\<close>; \<open>None\<close> when the default applies
  (the error, or its message, is \<^verbatim>\<open>undefined\<close> or \<^verbatim>\<open>null\<close>).
\<close>

definition embedded_message :: "json \<Rightarrow> json option" where
  "embedded_message parsed =
     (case get parsed ''error'' of
        None \<Rightarrow> None
      | Some JNull \<Rightarrow> None
      | Some e \<Rightarrow>
          (case get e ''message'' of
             None \<Rightarrow> None
           | Some JNull \<Rightarrow> None
           | Some v \<Rightarrow> Some v))"

text \<open>Line 195: \<^verbatim>\<open>throw new Error(message)\<close>; what is thrown.\<close>

definition throw_new_Error :: "'d platform \<Rightarrow> json option \<Rightarrow> thrown" where
  "throw_new_Error P message =
     (case message of
        None \<Rightarrow> ErrorObj (lit ''Error'') DEFAULT_MESSAGE
      | Some (JStr s) \<Rightarrow> ErrorObj (lit ''Error'') s
      | Some v \<Rightarrow>
          (case ToString P v of
             Inl e \<Rightarrow> e
           | Inr s \<Rightarrow> ErrorObj (lit ''Error'') s))"

text \<open>
  Lines 175-196, the chain of tests on the parsed payload: \<open>Inr (Some chunk)\<close> is a call
  \<^verbatim>\<open>onChunk(chunk)\<close>, \<open>Inr None\<close> is no call, \<open>Inl e\<close> is \<open>e\<close> thrown inside the
  \<^verbatim>\<open>try\<close> block. Reading a property of \<^verbatim>\<open>null\<close> throws a \<^verbatim>\<open>TypeError\<close>.
\<close>

definition choice_content :: "json \<Rightarrow> thrown + jstring option" where
  "choice_content choice =
     (if choice = JNull then Inl (TypeError_null ''delta'')
      else
        (case get choice ''delta'' of
           None \<Rightarrow> Inr None
         | Some delta \<Rightarrow>
             if truthy delta
             then
               (case get delta ''content'' of
                  Some (JStr content) \<Rightarrow> if content \<noteq> [] then Inr (Some content) else Inr None
                | _ \<Rightarrow> Inr None)
             else Inr None))"

definition dispatch :: "'d platform \<Rightarrow> json \<Rightarrow> thrown + jstring option" where
  "dispatch P parsed =
     (if parsed = JNull then Inl (TypeError_null ''type'')
      else if get parsed ''type'' = Some (JStr (lit ''response.output_text.delta''))
              \<and> as_string (get parsed ''delta'') \<noteq> None
      then Inr (as_string (get parsed ''delta''))
      else
        (case get parsed ''choices'' of
           Some (JArr (choice # others)) \<Rightarrow> choice_content choice
         | _ \<Rightarrow>
             if as_string (get parsed ''content'') \<noteq> None
             then Inr (as_string (get parsed ''content''))
             else if as_string (get parsed ''text'') \<noteq> None
             then Inr (as_string (get parsed ''text''))
             else if get parsed ''type'' = Some (JStr (lit ''response.error''))
             then Inl (throw_new_Error P (embedded_message parsed))
             else Inr None))"

text \<open>Lines 171-196: the \<^verbatim>\<open>try\<close> block, \<^verbatim>\<open>JSON.parse\<close> first.\<close>

definition try_block :: "'d platform \<Rightarrow> jstring \<Rightarrow> thrown + jstring option" where
  "try_block P payload =
     (case JSON_parse P payload of
        Inl m \<Rightarrow> Inl (ErrorObj (lit ''SyntaxError'') m)
      | Inr parsed \<Rightarrow> dispatch P parsed)"

text \<open>
  Lines 197-210: the \<^verbatim>\<open>catch\<close> block logs, and throws the error again only when it is
  an \<^verbatim>\<open>Error\<close> whose message includes \<^verbatim>\<open>'OpenAPI service returned'\<close>.
\<close>

definition rethrown :: "thrown \<Rightarrow> bool" where
  "rethrown error =
     (case error of
        ErrorObj n m \<Rightarrow> includes_str m (lit ''OpenAPI service returned'')
      | NonError \<Rightarrow> False)"

text \<open>
  Lines 148-212. The result is the list of \<^verbatim>\<open>onChunk\<close> calls in order, and either the
  error thrown out of \<^verbatim>\<open>processBuffer\<close> or the variables \<^verbatim>\<open>completed\<close> and
  \<^verbatim>\<open>buffer\<close> as it leaves them. It is only called while \<^verbatim>\<open>completed\<close> is false.
  The \<^verbatim>\<open>onChunk\<close> of the handler (lines 311-313) only calls \<^verbatim>\<open>sendPayload\<close>, which
  throws nothing, so a call is recorded and the loop goes on. The lemma before the
  function bounds the index of a match; the termination proof needs it.
\<close>

lemma indexOf_bound: "indexOf xs p = Some i \<Longrightarrow> i + length p \<le> length xs"
proof (induction xs arbitrary: i)
  case Nil
  then show ?case by (simp split: if_splits)
next
  case (Cons x xs)
  then show ?case
    by (auto split: if_splits dest: prefix_length_le)
qed

function processBuffer ::
  "'d platform \<Rightarrow> jstring \<Rightarrow> jstring list \<times> (thrown + bool \<times> jstring)" where
  "processBuffer P buffer =
     (case indexOf buffer DELIMITER of
        None \<Rightarrow> ([], Inr (False, buffer))
      | Some newlineIndex \<Rightarrow>
          (if extract_payload (take newlineIndex buffer) = []
           then processBuffer P (drop (newlineIndex + 2) buffer)
           else if extract_payload (take newlineIndex buffer) = lit ''[DONE]''
           then ([], Inr (True, drop (newlineIndex + 2) buffer))
           else
             (case try_block P (extract_payload (take newlineIndex buffer)) of
                Inl error \<Rightarrow>
                  if rethrown error then ([], Inl error)
                  else processBuffer P (drop (newlineIndex + 2) buffer)
              | Inr None \<Rightarrow> processBuffer P (drop (newlineIndex + 2) buffer)
              | Inr (Some chunk) \<Rightarrow>
                  (case processBuffer P (drop (newlineIndex + 2) buffer) of
                     (chunks, r) \<Rightarrow> (chunk # chunks, r)))))"
  by pat_completeness auto
termination
proof (relation "measure (\<lambda>(P, buffer). length buffer)")
  show "wf (measure (\<lambda>(P :: 'd platform, buffer :: jstring). length buffer))"
    by simp
qed (auto dest!: indexOf_bound simp: DELIMITER_def)

declare processBuffer.simps [simp del]

section \<open>streamPersonalWebsite\<close>

text \<open>
  What the relay meets from outside during one connection. A chunk is the list of its
  bytes, a byte a \<^typ>\<open>char\<close>.
  \<^item> The response of \<^verbatim>\<open>fetch\<close>: \<^verbatim>\<open>response.ok\<close>, \<^verbatim>\<open>response.status\<close>, what
    \<^verbatim>\<open>response.text()\<close> resolves to (\<open>None\<close> when it rejects), and \<^verbatim>\<open>response.body\<close>
    (\<open>None\<close> for \<^verbatim>\<open>null\<close>): the chunks the reader yields in order, and how the last
    \<^verbatim>\<open>reader.read()\<close> settles (\<^verbatim>\<open>done\<close>, or a rejection).
  \<^item> Time is counted in the \<^verbatim>\<open>await\<close>s the stream function has been through: the
    \<^verbatim>\<open>fetch\<close> is \<^verbatim>\<open>await\<close> 1, each \<^verbatim>\<open>reader.read()\<close> (or the \<^verbatim>\<open>response.text()\<close>
    of the failure path) one more. \<open>abort_at = Some k\<close> says that the socket's
    \<^verbatim>\<open>close\<close> handler (lines 305-307) ran \<^verbatim>\<open>abortController.abort()\<close> before \<^verbatim>\<open>await\<close>
    \<open>k\<close> settled; from then on a \<^verbatim>\<open>fetch\<close> or a read under that signal rejects with an
    \<^verbatim>\<open>AbortError\<close>. \<open>socket_open t\<close> is \<^verbatim>\<open>socket.readyState === WebSocket.OPEN\<close> in
    the turn that follows \<^verbatim>\<open>await\<close> \<open>t\<close>.
\<close>

datatype stream_end = EndOfStream | ReadError thrown

record response =
  ok :: bool
  status :: nat
  text_result :: "jstring option"
  body :: "(string list \<times> stream_end) option"

record env =
  apiKey :: "jstring option"
  fetch_result :: "thrown + response"
  abort_at :: "nat option"
  socket_open :: "nat \<Rightarrow> bool"

definition aborted :: "nat option \<Rightarrow> nat \<Rightarrow> bool" where
  "aborted ab t = (case ab of None \<Rightarrow> False | Some k \<Rightarrow> k \<le> t)"

definition is_AbortError :: "thrown \<Rightarrow> bool" where
  "is_AbortError error =
     (case error of ErrorObj n m \<Rightarrow> n = lit ''AbortError'' | NonError \<Rightarrow> False)"

text \<open>
  Lines 240-245: the \<^verbatim>\<open>catch\<close> around the read loop returns on an \<^verbatim>\<open>AbortError\<close> and
  throws anything else again.
\<close>

definition outer_catch :: "thrown \<Rightarrow> thrown + unit" where
  "outer_catch error = (if is_AbortError error then Inr () else Inl error)"

definition stamp :: "nat \<Rightarrow> jstring list \<Rightarrow> (nat \<times> jstring) list" where
  "stamp t chunks = map (Pair t) chunks"

text \<open>
  Lines 214-248, from the state \<open>(decoder, buffer)\<close> after \<open>t\<close> \<^verbatim>\<open>await\<close>s, with
  \<^verbatim>\<open>completed\<close> false. The result is the \<^verbatim>\<open>onChunk\<close> calls, each with the time of its
  turn, how the promise settles (\<open>Inr ()\<close> resolved, \<open>Inl e\<close> rejected with \<open>e\<close>), and the
  time at which it settles.
\<close>

fun read_loop ::
  "'d platform \<Rightarrow> nat option \<Rightarrow> nat \<Rightarrow> 'd \<Rightarrow> jstring \<Rightarrow> string list \<Rightarrow> stream_end
     \<Rightarrow> (nat \<times> jstring) list \<times> (thrown + unit) \<times> nat" where
  "read_loop P ab t decoder buffer [] e =
     (case (if aborted ab (Suc t) then ReadError AbortError else e) of
        ReadError error \<Rightarrow> ([], outer_catch error, Suc t)
      | EndOfStream \<Rightarrow>
          (case processBuffer P (buffer @ decode_end P decoder) of
             (chunks, Inl error) \<Rightarrow> (stamp (Suc t) chunks, outer_catch error, Suc t)
           | (chunks, Inr r) \<Rightarrow> (stamp (Suc t) chunks, Inr (), Suc t)))"
| "read_loop P ab t decoder buffer (v # vs) e =
     (if aborted ab (Suc t) then ([], outer_catch AbortError, Suc t)
      else
        (case decode P decoder v of
           (decoder', decoded) \<Rightarrow>
             (case processBuffer P (buffer @ decoded) of
                (chunks, Inl error) \<Rightarrow> (stamp (Suc t) chunks, outer_catch error, Suc t)
              | (chunks, Inr (completed, buffer')) \<Rightarrow>
                  if completed then (stamp (Suc t) chunks, Inr (), Suc t)
                  else
                    (case read_loop P ab (Suc t) decoder' buffer' vs e of
                       (calls, r, t') \<Rightarrow> (stamp (Suc t) chunks @ calls, r, t')))))"

text \<open>Lines 134-141: the failure of the initial request, thrown after \<^verbatim>\<open>await\<close> 2.\<close>

definition request_failed :: "nat option \<Rightarrow> response \<Rightarrow> thrown" where
  "request_failed ab response =
     ErrorObj (lit ''Error'')
       (trim (lit ''OpenAPI request failed with status '' @ decimal (status response)
              @ lit '': ''
              @ (if aborted ab 2 then []
                 else (case text_result response of None \<Rightarrow> [] | Some errorText \<Rightarrow> errorText))))"

definition NOT_CONFIGURED :: thrown where
  "NOT_CONFIGURED =
     ErrorObj (lit ''Error'')
       (lit ''OPENAPI_API_KEY is not configured. Please add it to your environment.'')"

text \<open>Lines 111-249.\<close>

definition streamPersonalWebsite ::
  "'d platform \<Rightarrow> env \<Rightarrow> (nat \<times> jstring) list \<times> (thrown + unit) \<times> nat" where
  "streamPersonalWebsite P E =
     (if apiKey E = None \<or> apiKey E = Some [] then ([], Inl NOT_CONFIGURED, 0)
      else
        (case (if aborted (abort_at E) 1 then Inl AbortError else fetch_result E) of
           Inl error \<Rightarrow> ([], Inl error, 1)
         | Inr response \<Rightarrow>
             (case body response of
                None \<Rightarrow> ([], Inl (request_failed (abort_at E) response), 2)
              | Some (chunks, e) \<Rightarrow>
                  if ok response
                  then read_loop P (abort_at E) 1 (decoder_new P) [] chunks e
                  else ([], Inl (request_failed (abort_at E) response), 2))))"

section \<open>The connection handler\<close>

text \<open>
  The three payloads the handler passes to \<^verbatim>\<open>sendPayload\<close>, which sends each as
  \<^verbatim>\<open>JSON.stringify(payload)\<close>: \<^verbatim>\<open>{ type: 'chunk', data }\<close>, \<^verbatim>\<open>{ type: 'done' }\<close> and
  \<^verbatim>\<open>{ type: 'error', message }\<close>.
\<close>

datatype payload = Chunk jstring | Done | Error jstring

fun is_chunk :: "payload \<Rightarrow> bool" where
  "is_chunk (Chunk data) = True"
| "is_chunk p = False"

fun is_terminal :: "payload \<Rightarrow> bool" where
  "is_terminal (Chunk data) = False"
| "is_terminal p = True"

text \<open>Lines 286-299: what goes out on the socket for one call at time \<open>t\<close>.\<close>

definition sendPayload :: "env \<Rightarrow> nat \<Rightarrow> payload \<Rightarrow> payload list" where
  "sendPayload E t p = (if socket_open E t then [p] else [])"

text \<open>Lines 319-332: the \<^verbatim>\<open>catch\<close> of the handler.\<close>

definition on_rejected :: "env \<Rightarrow> nat \<Rightarrow> thrown \<Rightarrow> payload list" where
  "on_rejected E t error =
     (if is_AbortError error then []
      else sendPayload E t
             (Error (case error of
                       ErrorObj n m \<Rightarrow> m
                     | NonError \<Rightarrow> lit ''Unknown error while contacting OpenAPI.'')))"

text \<open>
  Lines 281-333: every message one connection sends, in order. \<^verbatim>\<open>onChunk\<close> sends in the
  turn of its call; the promise's \<^verbatim>\<open>then\<close> or \<^verbatim>\<open>catch\<close> runs when it has settled.
\<close>

definition on_connection :: "'d platform \<Rightarrow> env \<Rightarrow> payload list" where
  "on_connection P E =
     (case streamPersonalWebsite P E of
        (calls, r, t) \<Rightarrow>
          concat (map (\<lambda>(t', chunk). sendPayload E t' (Chunk chunk)) calls)
          @ (case r of
               Inr u \<Rightarrow> sendPayload E t Done
             | Inl error \<Rightarrow> on_rejected E t error))"

text \<open>The events of a run of the stream function: the chunk texts and how it settles.\<close>

definition events ::
  "(nat \<times> jstring) list \<times> (thrown + unit) \<times> nat \<Rightarrow> jstring list \<times> (thrown + unit)" where
  "events run = (case run of (calls, r, t) \<Rightarrow> (map snd calls, r))"

text \<open>
  What one \<^verbatim>\<open>processBuffer\<close> pass over the whole of a stream gives, from the state
  \<open>(decoder, buffer)\<close>: the chunk texts and how the promise settles. The read loop is
  compared with it.
\<close>

definition one_pass ::
  "'d platform \<Rightarrow> 'd \<Rightarrow> jstring \<Rightarrow> string \<Rightarrow> stream_end \<Rightarrow> jstring list \<times> (thrown + unit)" where
  "one_pass P decoder buffer bytes e =
     (case decode P decoder bytes of
        (decoder', decoded) \<Rightarrow>
          (case processBuffer P (buffer @ decoded) of
             (chunks, Inl error) \<Rightarrow> (chunks, outer_catch error)
           | (chunks, Inr (completed, buffer')) \<Rightarrow>
               if completed then (chunks, Inr ())
               else (case e of
                       ReadError error \<Rightarrow> (chunks, outer_catch error)
                     | EndOfStream \<Rightarrow> (chunks, Inr ()))))"

definition settled_at :: "(nat \<times> jstring) list \<times> (thrown + unit) \<times> nat \<Rightarrow> nat" where
  "settled_at run = snd (snd run)"

section \<open>A platform and connections to evaluate\<close>

text \<open>
  \<open>sample_parse\<close> agrees with \<^verbatim>\<open>JSON.parse\<close> on the payloads it lists and on the
  payloads of the examples below that are not JSON; \<open>sample_platform\<close> decodes ASCII
  bytes, as \<^verbatim>\<open>TextDecoder\<close> does.
\<close>

definition sample_parse :: "jstring \<Rightarrow> jstring + json" where
  \<open>sample_parse s =
     (if s = lit ''{"text":"Hi"}''
      then Inr (JObj [(lit ''text'', JStr (lit ''Hi''))])
      else if s = lit ''{"text":"late"}''
      then Inr (JObj [(lit ''text'', JStr (lit ''late''))])
      else if s = lit ''{"type":"response.error","error":{"message":"boom"}}''
      then Inr (JObj [(lit ''type'', JStr (lit ''response.error'')),
                      (lit ''error'', JObj [(lit ''message'', JStr (lit ''boom''))])])
      else if s = lit ''{"type":"response.error"}''
      then Inr (JObj [(lit ''type'', JStr (lit ''response.error''))])
      else Inl (lit ''Unexpected end of JSON input''))\<close>

definition sample_platform :: "unit platform" where
  "sample_platform =
     \<lparr> JSON_parse = sample_parse,
       ToString = (\<lambda>v. Inr (lit ''[object Object]'')),
       decoder_new = (),
       decoder_step = (\<lambda>d b. (d, [of_char b])),
       decoder_pending = (\<lambda>d. False) \<rparr>"

definition sample_response :: "string list \<Rightarrow> response" where
  "sample_response chunks =
     \<lparr> ok = True, status = 200, text_result = None, body = Some (chunks, EndOfStream) \<rparr>"

definition sample_env :: "string list \<Rightarrow> env" where
  "sample_env chunks =
     \<lparr> apiKey = Some (lit ''key''),
       fetch_result = Inr (sample_response chunks),
       abort_at = None,
       socket_open = (\<lambda>t. True) \<rparr>"

text \<open>A request the upstream rejects with status 429 and the body \<^verbatim>\<open>rate limited\<close>.\<close>

definition rejected_response :: response where
  "rejected_response =
     \<lparr> ok = False, status = 429, text_result = Some (lit ''rate limited''),
       body = Some ([], EndOfStream) \<rparr>"

definition rejected_env :: env where
  "rejected_env =
     \<lparr> apiKey = Some (lit ''key''),
       fetch_result = Inr rejected_response,
       abort_at = None,
       socket_open = (\<lambda>t. True) \<rparr>"

text \<open>
  A peer that leaves while the third \<^verbatim>\<open>await\<close> (the second read) is pending: the socket
  is open before, and the \<^verbatim>\<open>close\<close> handler aborts the request.
\<close>

definition leaving_env :: env where
  \<open>leaving_env =
     \<lparr> apiKey = Some (lit ''key''),
       fetch_result =
         Inr (sample_response
               [''data: {"text":"Hi"}\<newline>\<newline>'', ''data: {"text":"late"}\<newline>\<newline>'']),
       abort_at = Some 3,
       socket_open = (\<lambda>t. t < 3) \<rparr>\<close>

text \<open>
  The payload as the specification words it: of the lines that begin with \<^verbatim>\<open>data:\<close>,
  the prefix and one following space stripped, joined with a line feed.
\<close>

definition strip_one_space :: "jstring \<Rightarrow> jstring" where
  "strip_one_space line =
     (case drop (length (lit ''data:'')) line of
        [] \<Rightarrow> []
      | c # cs \<Rightarrow> if c = 32 then cs else c # cs)"

definition payload_as_specified :: "jstring \<Rightarrow> jstring" where
  "payload_as_specified rawEvent =
     join [LF]
       (map strip_one_space
         (filter (\<lambda>line. startsWith line (lit ''data:'')) (split_str LF rawEvent)))"

text \<open>
  A stream of two frames, the second one the sentinel, cut into four chunks inside its
  lines and inside its delimiters.
\<close>

definition split_stream :: "string list" where
  \<open>split_stream = [''data: {"te'', ''xt":"Hi"}\<newline>'', ''\<newline>data: [DO'', ''NE]\<newline>\<newline>'']\<close>

text \<open>
  A stream whose second frame is the sentinel, cut inside it, with a third frame behind.
\<close>

definition sentinel_stream :: "string list" where
  \<open>sentinel_stream =
     [''data: {"text":"Hi"}\<newline>\<newline>data: [DO'', ''NE]\<newline>\<newline>data: {"text":"late"}\<newline>\<newline>'']\<close>

text \<open>
  A stream whose first frame is an error frame cut short, which \<^verbatim>\<open>JSON.parse\<close>
  rejects, and whose second frame is well formed.
\<close>

definition malformed_stream :: "string list" where
  \<open>malformed_stream =
     [''data: {"type":"response.error","error":\<newline>\<newline>data: {"text":"Hi"}\<newline>\<newline>'']\<close>


section \<open>Lemmas on the string functions and on processBuffer\<close>

lemma prefix_append_short:
  "prefix p (a @ b) \<Longrightarrow> length p \<le> length a \<Longrightarrow> prefix p a"
  by (auto simp: prefix_append dest: prefix_length_le)

lemma indexOf_append:
  "indexOf xs p = Some i \<Longrightarrow> indexOf (xs @ ys) p = Some i"
proof (induction xs arbitrary: i)
  case Nil
  then show ?case by (cases ys) (auto split: if_splits)
next
  case (Cons x xs)
  show ?case
  proof (cases "prefix p (x # xs)")
    case True
    then have "prefix p ((x # xs) @ ys)" by (rule prefix_prefix)
    with True Cons.prems show ?thesis by simp
  next
    case False
    with Cons.prems obtain j where j: "indexOf xs p = Some j" "i = Suc j"
      by auto
    from j(1) have "length p \<le> length (x # xs)"
      by (auto dest: indexOf_bound)
    with False have "\<not> prefix p ((x # xs) @ ys)"
      using prefix_append_short by blast
    with Cons.IH [OF j(1)] j(2) show ?thesis by simp
  qed
qed

lemma indexOf_None_snoc:
  "indexOf b DELIMITER = None \<Longrightarrow> c \<noteq> LF \<Longrightarrow> indexOf (b @ [c]) DELIMITER = None"
proof (induction b)
  case Nil
  then show ?case by (simp add: DELIMITER_def)
next
  case (Cons x xs)
  then show ?case
    by (cases xs) (auto simp: DELIMITER_def split: if_splits)
qed

lemma processBuffer_clean:
  "indexOf b DELIMITER = None \<Longrightarrow> processBuffer P b = ([], Inr (False, b))"
  by (subst processBuffer.simps) simp

lemma processBuffer_append:
  "processBuffer P (b @ x) =
     (case processBuffer P b of
        (xs, Inl e) \<Rightarrow> (xs, Inl e)
      | (xs, Inr (c, rest)) \<Rightarrow>
          if c then (xs, Inr (True, rest @ x))
          else (case processBuffer P (rest @ x) of (ys, r') \<Rightarrow> (xs @ ys, r')))"
proof (induction P b rule: processBuffer.induct)
  case (1 P buffer)
  show ?case
  proof (cases "indexOf buffer DELIMITER")
    case None
    then show ?thesis by (simp add: processBuffer_clean)
  next
    case (Some i)
    then have bound: "i + 2 \<le> length buffer"
      by (auto dest: indexOf_bound simp: DELIMITER_def)
    have ix: "indexOf (buffer @ x) DELIMITER = Some i"
      using Some by (rule indexOf_append)
    have tk: "take i (buffer @ x) = take i buffer"
      using bound by simp
    have dr: "drop (i + 2) (buffer @ x) = drop (i + 2) buffer @ x"
      using bound by simp
    define pl where "pl = extract_payload (take i buffer)"
    define rest where "rest = drop (i + 2) buffer"
    have L: "processBuffer P (buffer @ x) =
       (if pl = [] then processBuffer P (rest @ x)
        else if pl = lit ''[DONE]'' then ([], Inr (True, rest @ x))
        else (case try_block P pl of
                Inl error \<Rightarrow> if rethrown error then ([], Inl error) else processBuffer P (rest @ x)
              | Inr None \<Rightarrow> processBuffer P (rest @ x)
              | Inr (Some chunk) \<Rightarrow>
                  (case processBuffer P (rest @ x) of (chunks, r) \<Rightarrow> (chunk # chunks, r))))"
      by (subst processBuffer.simps) (simp only: ix tk dr pl_def rest_def option.case)
    have R: "processBuffer P buffer =
       (if pl = [] then processBuffer P rest
        else if pl = lit ''[DONE]'' then ([], Inr (True, rest))
        else (case try_block P pl of
                Inl error \<Rightarrow> if rethrown error then ([], Inl error) else processBuffer P rest
              | Inr None \<Rightarrow> processBuffer P rest
              | Inr (Some chunk) \<Rightarrow>
                  (case processBuffer P rest of (chunks, r) \<Rightarrow> (chunk # chunks, r))))"
      by (subst processBuffer.simps) (simp only: Some pl_def rest_def option.case)
    let ?G = "\<lambda>b. processBuffer P (b @ x) =
     (case processBuffer P b of
        (xs, Inl e) \<Rightarrow> (xs, Inl e)
      | (xs, Inr (c, rest)) \<Rightarrow>
          if c then (xs, Inr (True, rest @ x))
          else (case processBuffer P (rest @ x) of (ys, r') \<Rightarrow> (xs @ ys, r')))"
    consider (empty) "pl = []"
      | (sentinel) "pl \<noteq> []" "pl = lit ''[DONE]''"
      | (thrown) e where "pl \<noteq> []" "pl \<noteq> lit ''[DONE]''" "try_block P pl = Inl e" "rethrown e"
      | (swallowed) e where "pl \<noteq> []" "pl \<noteq> lit ''[DONE]''" "try_block P pl = Inl e" "\<not> rethrown e"
      | (no_call) "pl \<noteq> []" "pl \<noteq> lit ''[DONE]''" "try_block P pl = Inr None"
      | (chunk) c where "pl \<noteq> []" "pl \<noteq> lit ''[DONE]''" "try_block P pl = Inr (Some c)"
    proof (atomize_elim, cases "try_block P pl")
      case (Inl e)
      then show "pl = [] \<or> pl \<noteq> [] \<and> pl = lit ''[DONE]'' \<or>
         (\<exists>e. pl \<noteq> [] \<and> pl \<noteq> lit ''[DONE]'' \<and> try_block P pl = Inl e \<and> rethrown e) \<or>
         (\<exists>e. pl \<noteq> [] \<and> pl \<noteq> lit ''[DONE]'' \<and> try_block P pl = Inl e \<and> \<not> rethrown e) \<or>
         pl \<noteq> [] \<and> pl \<noteq> lit ''[DONE]'' \<and> try_block P pl = Inr None \<or>
         (\<exists>c. pl \<noteq> [] \<and> pl \<noteq> lit ''[DONE]'' \<and> try_block P pl = Inr (Some c))"
        by auto
    next
      case (Inr v)
      then show "pl = [] \<or> pl \<noteq> [] \<and> pl = lit ''[DONE]'' \<or>
         (\<exists>e. pl \<noteq> [] \<and> pl \<noteq> lit ''[DONE]'' \<and> try_block P pl = Inl e \<and> rethrown e) \<or>
         (\<exists>e. pl \<noteq> [] \<and> pl \<noteq> lit ''[DONE]'' \<and> try_block P pl = Inl e \<and> \<not> rethrown e) \<or>
         pl \<noteq> [] \<and> pl \<noteq> lit ''[DONE]'' \<and> try_block P pl = Inr None \<or>
         (\<exists>c. pl \<noteq> [] \<and> pl \<noteq> lit ''[DONE]'' \<and> try_block P pl = Inr (Some c))"
        by (cases v) auto
    qed
    then show ?thesis
    proof cases
      case empty
      with "1"(1) [OF Some] have "?G rest" by (simp add: pl_def rest_def)
      with empty show ?thesis by (simp add: L R)
    next
      case sentinel
      then show ?thesis by (simp add: L R)
    next
      case thrown
      then show ?thesis by (simp add: L R)
    next
      case swallowed
      with "1"(2) [OF Some] have "?G rest" by (simp add: pl_def rest_def)
      with swallowed show ?thesis by (simp add: L R)
    next
      case no_call
      with "1"(3) [OF Some] have "?G rest" by (simp add: pl_def rest_def)
      with no_call show ?thesis by (simp add: L R)
    next
      case chunk
      with "1"(4) [OF Some] have "?G rest" by (simp add: pl_def rest_def)
      with chunk show ?thesis
        by (simp add: L R split: prod.splits sum.splits)
    qed
  qed
qed

lemma processBuffer_rest_clean:
  "processBuffer P b = (xs, Inr (False, rest)) \<Longrightarrow> indexOf rest DELIMITER = None"
proof (induction P b arbitrary: xs rule: processBuffer.induct)
  case (1 P buffer)
  show ?case
  proof (cases "indexOf buffer DELIMITER")
    case None
    with "1.prems" show ?thesis by (simp add: processBuffer_clean)
  next
    case (Some i)
    from "1.prems" show ?thesis
      by (subst (asm) processBuffer.simps)
        (auto simp: Some split: if_splits sum.splits option.splits prod.splits
          dest: "1.IH"(1) [OF Some] "1.IH"(2) [OF Some] "1.IH"(3) [OF Some] "1.IH"(4) [OF Some])
  qed
qed

lemma decode_append:
  "decode P d (a @ b) =
     (case decode P d a of (d1, s1) \<Rightarrow> (case decode P d1 b of (d2, s2) \<Rightarrow> (d2, s1 @ s2)))"
  by (induction a arbitrary: d) (auto split: prod.splits)

lemma indexOf_decode_end:
  "indexOf b DELIMITER = None \<Longrightarrow> indexOf (b @ decode_end P d) DELIMITER = None"
  by (simp add: decode_end_def indexOf_None_snoc LF_def)

lemma read_loop_events:
  "indexOf buffer DELIMITER = None \<Longrightarrow>
     events (read_loop P None t d buffer chunks e) = one_pass P d buffer (concat chunks) e"
proof (induction chunks arbitrary: t d buffer)
  case Nil
  then show ?case
    by (cases e)
      (simp_all add: events_def one_pass_def aborted_def processBuffer_clean
        indexOf_decode_end stamp_def)
next
  case (Cons v vs)
  obtain d1 t1 where dec: "decode P d v = (d1, t1)" by fastforce
  obtain d2 t2 where dec2: "decode P d1 (concat vs) = (d2, t2)" by fastforce
  have whole: "decode P d (v @ concat vs) = (d2, t1 @ t2)"
    by (simp add: decode_append dec dec2)
  obtain xs r where pb: "processBuffer P (buffer @ t1) = (xs, r)" by fastforce
  have app: "processBuffer P (buffer @ t1 @ t2) =
     (case r of
        Inl e \<Rightarrow> (xs, Inl e)
      | Inr (c, rest) \<Rightarrow>
          if c then (xs, Inr (True, rest @ t2))
          else (case processBuffer P (rest @ t2) of (ys, r') \<Rightarrow> (xs @ ys, r')))"
    using processBuffer_append [of P "buffer @ t1" t2] pb by simp
  show ?case
  proof (cases r)
    case (Inl err)
    then show ?thesis
      by (simp add: one_pass_def whole app dec pb aborted_def events_def stamp_def comp_def)
  next
    case (Inr cr)
    obtain c rest where cr: "cr = (c, rest)" by fastforce
    show ?thesis
    proof (cases c)
      case True
      then show ?thesis
        by (simp add: one_pass_def whole app dec pb aborted_def events_def stamp_def
            comp_def Inr cr)
    next
      case False
      with pb Inr cr have "indexOf rest DELIMITER = None"
        by (auto dest: processBuffer_rest_clean)
      then have IH: "events (read_loop P None (Suc t) d1 rest vs e) =
          one_pass P d1 rest (concat vs) e"
        by (rule Cons.IH)
      have "events (read_loop P None t d buffer (v # vs) e) =
          (case events (read_loop P None (Suc t) d1 rest vs e) of (ys, r) \<Rightarrow> (xs @ ys, r))"
        by (simp add: dec pb Inr cr False aborted_def events_def stamp_def comp_def
            split: prod.splits)
      also have "\<dots> = one_pass P d buffer (concat (v # vs)) e"
        by (simp add: IH one_pass_def whole app dec2 Inr cr False
            split: prod.splits sum.splits stream_end.splits)
      finally show ?thesis .
    qed
  qed
qed

text \<open>
  When no \<^verbatim>\<open>SyntaxError\<close> of the parser has a message with the text the \<^verbatim>\<open>catch\<close>
  block tests for, an error thrown out of \<^verbatim>\<open>processBuffer\<close> was thrown by the chain of
  tests on a payload that was decoded.
\<close>

lemma thrown_after_decoding:
  "\<forall>s m. JSON_parse P s = Inl m \<longrightarrow> \<not> includes_str m (lit ''OpenAPI service returned'') \<Longrightarrow>
   processBuffer P buffer = (xs, Inl e) \<Longrightarrow>
     \<exists>payload parsed. JSON_parse P payload = Inr parsed \<and> dispatch P parsed = Inl e"
proof (induction P buffer arbitrary: xs rule: processBuffer.induct)
  case (1 P buffer)
  note syntax_errors = "1.prems"(1)
  note thrown = "1.prems"(2)
  show ?case
  proof (cases "indexOf buffer DELIMITER")
    case None
    with thrown show ?thesis by (simp add: processBuffer_clean)
  next
    case (Some i)
    define pl where "pl = extract_payload (take i buffer)"
    define rest where "rest = drop (i + 2) buffer"
    have unfolded: "processBuffer P buffer =
       (if pl = [] then processBuffer P rest
        else if pl = lit ''[DONE]'' then ([], Inr (True, rest))
        else (case try_block P pl of
                Inl error \<Rightarrow> if rethrown error then ([], Inl error) else processBuffer P rest
              | Inr None \<Rightarrow> processBuffer P rest
              | Inr (Some chunk) \<Rightarrow>
                  (case processBuffer P rest of (chunks, r) \<Rightarrow> (chunk # chunks, r))))"
      by (subst processBuffer.simps) (simp only: Some pl_def rest_def option.case)
    let ?goal = "\<exists>payload parsed. JSON_parse P payload = Inr parsed \<and> dispatch P parsed = Inl e"
    have later: "processBuffer P rest = (ys, Inl e) \<Longrightarrow>
        pl = [] \<or> (pl \<noteq> [] \<and> pl \<noteq> lit ''[DONE]'' \<and>
          ((\<exists>error. try_block P pl = Inl error \<and> \<not> rethrown error)
            \<or> try_block P pl = Inr None \<or> (\<exists>chunk. try_block P pl = Inr (Some chunk)))) \<Longrightarrow>
        ?goal" for ys
      using "1.IH"(1) [OF Some _ syntax_errors, of ys]
        "1.IH"(2) [OF Some _ _ _ _ syntax_errors, of _ ys]
        "1.IH"(3) [OF Some _ _ _ _ syntax_errors, of _ ys]
        "1.IH"(4) [OF Some _ _ _ _ syntax_errors, of _ _ ys]
      unfolding pl_def rest_def by blast
    show ?thesis
    proof (cases "pl = [] \<or> pl = lit ''[DONE]''")
      case True
      with thrown unfolded later show ?thesis
        by (auto split: if_splits)
    next
      case False
      show ?thesis
      proof (cases "try_block P pl")
        case (Inl error)
        show ?thesis
        proof (cases "rethrown error")
          case True
          with thrown unfolded False Inl have e: "error = e" by simp
          show ?thesis
          proof (cases "JSON_parse P pl")
            case (Inl m)
            with \<open>try_block P pl = Inl error\<close> have "error = ErrorObj (lit ''SyntaxError'') m"
              by (simp add: try_block_def)
            with True syntax_errors Inl show ?thesis
              by (simp add: rethrown_def)
          next
            case (Inr parsed)
            with \<open>try_block P pl = Inl error\<close> e show ?thesis
              by (auto simp: try_block_def)
          qed
        next
          case not_rethrown: False
          with thrown unfolded False Inl have "processBuffer P rest = (xs, Inl e)" by simp
          with later False Inl not_rethrown show ?thesis by blast
        qed
      next
        case (Inr call)
        show ?thesis
        proof (cases call)
          case None
          with thrown unfolded False Inr have "processBuffer P rest = (xs, Inl e)" by simp
          with later False Inr None show ?thesis by blast
        next
          case (Some chunk)
          with thrown unfolded False Inr obtain ys where "processBuffer P rest = (ys, Inl e)"
            by (auto split: prod.splits)
          with later False Inr Some show ?thesis by blast
        qed
      qed
    qed
  qed
qed

text \<open>The equations that evaluate a connection on a concrete input.\<close>

lemmas eval_simps = on_connection_def streamPersonalWebsite_def sample_env_def
  sample_response_def sample_platform_def aborted_def processBuffer.simps decode_end_def
  lit_def LF_def DELIMITER_def extract_payload_def trim_def trim_end_def is_space_def
  startsWith_def
  replace_data_def try_block_def sample_parse_def dispatch_def choice_content_def
  rethrown_def includes_str_def throw_new_Error_def embedded_message_def
  DEFAULT_MESSAGE_def stamp_def outer_catch_def is_AbortError_def sendPayload_def
  on_rejected_def request_failed_def AbortError_def TypeError_null_def events_def

section \<open>Lemmas on the connection handler\<close>

lemma sent_chunks:
  "concat (map (\<lambda>(t', chunk). sendPayload E t' (Chunk chunk)) calls) =
     map Chunk (map snd (filter (\<lambda>(t', chunk). socket_open E t') calls))"
  by (induction calls) (auto simp: sendPayload_def)

lemma terminal_shape:
  "(case r of Inr u \<Rightarrow> sendPayload E t Done | Inl error \<Rightarrow> on_rejected E t error) = []
   \<or> (case r of Inr u \<Rightarrow> sendPayload E t Done | Inl error \<Rightarrow> on_rejected E t error) = [Done]
   \<or> (\<exists>m. (case r of Inr u \<Rightarrow> sendPayload E t Done | Inl error \<Rightarrow> on_rejected E t error)
          = [Error m])"
  by (cases r) (auto simp: sendPayload_def on_rejected_def)

lemma on_connection_shape:
  "\<exists>chunks tail. on_connection P E = map Chunk chunks @ tail
     \<and> (tail = [] \<or> tail = [Done] \<or> (\<exists>m. tail = [Error m]))"
proof -
  obtain calls r t where run: "streamPersonalWebsite P E = (calls, r, t)"
    by (cases "streamPersonalWebsite P E") auto
  have "on_connection P E =
      map Chunk (map snd (filter (\<lambda>(t', chunk). socket_open E t') calls))
      @ (case r of Inr u \<Rightarrow> sendPayload E t Done | Inl error \<Rightarrow> on_rejected E t error)"
    by (simp add: on_connection_def run sent_chunks)
  with terminal_shape [where r = r and E = E and t = t] show ?thesis by blast
qed

lemma filter_terminal_chunks: "filter is_terminal (map Chunk chunks) = []"
  by (induction chunks) auto

lemma list_all_chunks: "list_all is_chunk (map Chunk chunks)"
  by (induction chunks) auto

lemma list_all_butlast: "list_all Q xs \<Longrightarrow> list_all Q (butlast xs)"
  by (auto simp: list_all_iff dest: in_set_butlastD)

text \<open>
  Without an abort, the events of the stream function are those of one pass over the
  concatenation of the chunks.
\<close>

lemma stream_events:
  assumes "apiKey E = Some key" and "key \<noteq> []" and "abort_at E = None"
    and "fetch_result E = Inr r" and "ok r" and "body r = Some (chunks, e)"
  shows "events (streamPersonalWebsite P E) = one_pass P (decoder_new P) [] (concat chunks) e"
proof -
  have "indexOf [] DELIMITER = None"
    by (simp add: DELIMITER_def)
  then have "events (read_loop P None 1 (decoder_new P) [] chunks e) =
      one_pass P (decoder_new P) [] (concat chunks) e"
    by (rule read_loop_events)
  with assms show ?thesis
    by (simp add: streamPersonalWebsite_def aborted_def)
qed

text \<open>With the socket open throughout, every call of \<^verbatim>\<open>sendPayload\<close> sends.\<close>

lemma on_connection_open:
  assumes "\<forall>t. socket_open E t"
  shows "on_connection P E =
     (case events (streamPersonalWebsite P E) of
        (chunks, r) \<Rightarrow>
          map Chunk chunks
          @ (case r of
               Inr u \<Rightarrow> [Done]
             | Inl error \<Rightarrow>
                 if is_AbortError error then []
                 else [Error (case error of
                                ErrorObj n m \<Rightarrow> m
                              | NonError \<Rightarrow> lit ''Unknown error while contacting OpenAPI.'')]))"
proof -
  obtain calls r t where run: "streamPersonalWebsite P E = (calls, r, t)"
    by (cases "streamPersonalWebsite P E") auto
  from assms have sent:
    "concat (map (\<lambda>(t', chunk). sendPayload E t' (Chunk chunk)) calls) = map Chunk (map snd calls)"
    by (induction calls) (auto simp: sendPayload_def)
  from assms have tail:
    "(case r of Inr u \<Rightarrow> sendPayload E t Done | Inl error \<Rightarrow> on_rejected E t error) =
     (case r of
        Inr u \<Rightarrow> [Done]
      | Inl error \<Rightarrow>
          if is_AbortError error then []
          else [Error (case error of
                         ErrorObj n m \<Rightarrow> m
                       | NonError \<Rightarrow> lit ''Unknown error while contacting OpenAPI.'')])"
    by (cases r) (simp_all add: sendPayload_def on_rejected_def)
  show ?thesis
    by (simp add: on_connection_def run sent tail events_def)
qed

lemma sentinel_frame:
  assumes "indexOf (frame @ DELIMITER) DELIMITER = Some (length frame)"
    and "extract_payload frame = lit ''[DONE]''"
  shows "processBuffer P (frame @ DELIMITER @ rest) = ([], Inr (True, rest))"
proof -
  have ix: "indexOf (frame @ DELIMITER @ rest) DELIMITER = Some (length frame)"
    using indexOf_append [OF assms(1), of rest] by simp
  have ne: "lit ''[DONE]'' \<noteq> []"
    by (simp add: lit_def)
  have tk: "take (length frame) (frame @ DELIMITER @ rest) = frame"
    by simp
  have dr: "drop (length frame + 2) (frame @ DELIMITER @ rest) = rest"
    by (simp add: DELIMITER_def)
  show ?thesis
    by (subst processBuffer.simps)
      (simp only: ix option.case tk dr assms(2) ne if_False if_True simp_thms)
qed

text \<open>
  The pass of lines 236-239 at the end of the stream emits nothing: the buffer holds no
  delimiter when the loop reads (it is empty at first, and \<open>processBuffer_rest_clean\<close>
  holds afterwards), and the pending output of the decoder adds none.
\<close>

lemma end_of_stream_pass_emits_nothing:
  assumes "\<not> aborted ab (Suc t)" and "indexOf buffer DELIMITER = None"
  shows "read_loop P ab t decoder buffer [] EndOfStream = ([], Inr (), Suc t)"
  using assms by (simp add: processBuffer_clean indexOf_decode_end stamp_def)

text \<open>An abort before \<^verbatim>\<open>await\<close> \<open>k\<close> settles the stream function by time \<open>k\<close>.\<close>

lemma read_loop_settled:
  "t < k \<Longrightarrow> settled_at (read_loop P (Some k) t d buffer chunks e) \<le> k"
proof (induction chunks arbitrary: t d buffer)
  case Nil
  then show ?case
    by (auto simp: settled_at_def split: stream_end.splits prod.splits sum.splits)
next
  case (Cons v vs)
  show ?case
  proof (cases "aborted (Some k) (Suc t)")
    case True
    with Cons.prems show ?thesis by (simp add: settled_at_def)
  next
    case False
    then have lt: "Suc t < k" by (simp add: aborted_def)
    from Cons.IH [OF lt]
    have IH: "\<And>d b calls r t'. read_loop P (Some k) (Suc t) d b vs e = (calls, r, t') \<Longrightarrow> t' \<le> k"
      by (metis settled_at_def snd_conv)
    from False lt show ?thesis
      by (auto simp: settled_at_def split: prod.splits sum.splits dest: IH)
  qed
qed

lemma abort_settles:
  assumes "abort_at E = Some k" and "1 \<le> k"
  shows "settled_at (streamPersonalWebsite P E) \<le> k"
proof (cases "k = 1")
  case True
  with assms show ?thesis
    by (simp add: streamPersonalWebsite_def settled_at_def aborted_def)
next
  case False
  with assms have lt: "1 < k" by simp
  from read_loop_settled [OF lt] assms lt show ?thesis
    by (auto simp: streamPersonalWebsite_def settled_at_def split: sum.splits option.splits)
qed

lemma replace_data_kept:
  "startsWith line (lit ''data:'') \<Longrightarrow> replace_data line = dropWhile is_space (drop 5 line)"
proof -
  have "length (lit ''data:'') = 5"
    by (simp add: lit_def)
  then show "startsWith line (lit ''data:'') \<Longrightarrow> ?thesis"
    by (simp only: replace_data_def if_True)
qed

lemma trim_between:
  assumes "\<not> is_space a" and "\<not> is_space c"
  shows "trim (a # u @ c # w) = a # u @ c # trim_end w"
proof -
  have "dropWhile is_space (rev w @ c # (rev u @ [a])) =
      dropWhile is_space (rev w) @ c # (rev u @ [a])"
    using assms(2) by (rule dropWhile_append3)
  then show ?thesis
    using assms(1) by (simp add: trim_def trim_end_def)
qed

lemma request_failed_message:
  "trim (lit ''OpenAPI request failed with status '' @ decimal n @ lit '': '' @ errorText) =
     lit ''OpenAPI request failed with status '' @ decimal n @ lit '':'' @ trim_end (lit '' '' @ errorText)"
proof -
  define u where "u = tl (lit ''OpenAPI request failed with status '') @ decimal n"
  have A: "lit ''OpenAPI request failed with status '' @ decimal n @ lit '': '' @ errorText =
      79 # u @ 58 # (lit '' '' @ errorText)"
    by (simp add: u_def lit_def)
  have B: "trim (79 # u @ 58 # (lit '' '' @ errorText)) =
      79 # u @ 58 # trim_end (lit '' '' @ errorText)"
    by (rule trim_between) (simp_all add: is_space_def)
  have C: "79 # u @ 58 # trim_end (lit '' '' @ errorText) =
      lit ''OpenAPI request failed with status '' @ decimal n @ lit '':''
        @ trim_end (lit '' '' @ errorText)"
    by (simp add: u_def lit_def)
  show ?thesis
    by (simp only: A B C)
qed

section \<open>The claims\<close>

text \<open>
  C1. Whatever the platform and the environment do, the messages one connection sends
  are chunk messages followed by at most one terminal message (\<^verbatim>\<open>done\<close> or
  \<^verbatim>\<open>error\<close>): at most one terminal message is sent, and every message but the last
  is a chunk message, so no chunk message follows a terminal one.
\<close>

theorem one_terminal_message_last:
  "(\<exists>chunks tail. on_connection P E = map Chunk chunks @ tail
      \<and> (tail = [] \<or> tail = [Done] \<or> (\<exists>m. tail = [Error m])))
   \<and> length (filter is_terminal (on_connection P E)) \<le> 1
   \<and> list_all is_chunk (butlast (on_connection P E))"
proof -
  obtain chunks tail where shape: "on_connection P E = map Chunk chunks @ tail"
    and tail: "tail = [] \<or> tail = [Done] \<or> (\<exists>m. tail = [Error m])"
    using on_connection_shape by blast
  from tail have "length (filter is_terminal (on_connection P E)) \<le> 1"
    by (auto simp: shape filter_terminal_chunks)
  moreover from tail have "list_all is_chunk (butlast (on_connection P E))"
    by (auto simp: shape butlast_append list_all_chunks list_all_butlast)
  ultimately show ?thesis using shape tail by blast
qed

text \<open>
  C2. Reassembly independence. For every byte stream, however it is cut into chunks
  (also inside a multi-byte character, the decoder keeping its state between chunks),
  the stream function run on the chunks one at a time and run on the whole stream as a
  single chunk produce the same chunk texts in the same order and settle the same way.
  The request is not aborted.
\<close>

theorem reassembly_independence:
  assumes "abort_at E = None" and "fetch_result E = Inr r" and "body r = Some (chunks, e)"
  shows "events (streamPersonalWebsite P E) =
         events (streamPersonalWebsite P
                   (E\<lparr>fetch_result := Inr (r\<lparr>body := Some ([concat chunks], e)\<rparr>)\<rparr>))"
proof (cases "apiKey E = None \<or> apiKey E = Some [] \<or> \<not> ok r")
  case True
  with assms show ?thesis
    by (auto simp: streamPersonalWebsite_def aborted_def request_failed_def)
next
  case False
  then obtain key where key: "apiKey E = Some key" "key \<noteq> []" and ok: "ok r"
    by auto
  let ?E' = "E\<lparr>fetch_result := Inr (r\<lparr>body := Some ([concat chunks], e)\<rparr>)\<rparr>"
  have "events (streamPersonalWebsite P E) =
      one_pass P (decoder_new P) [] (concat chunks) e"
    using key assms(1,2) ok assms(3) by (rule stream_events)
  moreover have "events (streamPersonalWebsite P ?E') =
      one_pass P (decoder_new P) [] (concat [concat chunks]) e"
    by (rule stream_events [where key = key and r = "r\<lparr>body := Some ([concat chunks], e)\<rparr>"])
      (use key assms ok in simp_all)
  ultimately show ?thesis by simp
qed

theorem reassembly_independence_witness:
  "events (streamPersonalWebsite sample_platform (sample_env split_stream)) =
     events (streamPersonalWebsite sample_platform (sample_env [concat split_stream]))
   \<and> events (streamPersonalWebsite sample_platform (sample_env split_stream)) =
       ([lit ''Hi''], Inr ())"
proof -
  have not_aborted: "abort_at (sample_env split_stream) = None"
    by (simp add: sample_env_def)
  have fetched: "fetch_result (sample_env split_stream) = Inr (sample_response split_stream)"
    by (simp add: sample_env_def)
  have body: "body (sample_response split_stream) = Some (split_stream, EndOfStream)"
    by (simp add: sample_response_def)
  have whole: "(sample_env split_stream)
      \<lparr>fetch_result :=
         Inr ((sample_response split_stream)\<lparr>body := Some ([concat split_stream], EndOfStream)\<rparr>)\<rparr>
      = sample_env [concat split_stream]"
    by (simp add: sample_env_def sample_response_def)
  have "events (streamPersonalWebsite sample_platform (sample_env split_stream)) =
      events (streamPersonalWebsite sample_platform (sample_env [concat split_stream]))"
    using reassembly_independence [OF not_aborted fetched body, of sample_platform]
    by (simp only: whole)
  moreover have "events (streamPersonalWebsite sample_platform (sample_env split_stream)) =
      ([lit ''Hi''], Inr ())"
    by (simp add: eval_simps split_stream_def)
  ultimately show ?thesis by simp
qed

text \<open>
  C3. Sentinel handling. Let the decoded stream be \<open>before @ frame @ DELIMITER @ rest\<close>,
  where \<open>before\<close> is consumed whole by \<^verbatim>\<open>processBuffer\<close> with the chunk texts \<open>xs\<close>
  (no sentinel, nothing thrown, nothing left over), \<open>frame\<close> is the next raw event
  and its payload is \<^verbatim>\<open>[DONE]\<close>. Then the stream function produces the chunk texts
  \<open>xs\<close> and resolves, whatever \<open>rest\<close> holds, however the stream is cut into
  chunks and however the reads after the sentinel would settle; with the socket open,
  the connection sends these chunks and then \<^verbatim>\<open>done\<close>.
\<close>

theorem sentinel_halts_processing:
  assumes "apiKey E = Some key" and "key \<noteq> []" and "abort_at E = None"
    and "fetch_result E = Inr r" and "ok r" and "body r = Some (chunks, e)"
    and "snd (decode P (decoder_new P) (concat chunks)) = before @ frame @ DELIMITER @ rest"
    and "processBuffer P before = (xs, Inr (False, []))"
    and "indexOf (frame @ DELIMITER) DELIMITER = Some (length frame)"
    and "extract_payload frame = lit ''[DONE]''"
  shows "events (streamPersonalWebsite P E) = (xs, Inr ())
     \<and> ((\<forall>t. socket_open E t) \<longrightarrow> on_connection P E = map Chunk xs @ [Done])"
proof -
  have "processBuffer P (before @ frame @ DELIMITER @ rest) = (xs, Inr (True, rest))"
    using processBuffer_append [of P before "frame @ DELIMITER @ rest"]
    by (simp add: assms(8) sentinel_frame [OF assms(9,10)])
  moreover obtain d' decoded where dec: "decode P (decoder_new P) (concat chunks) = (d', decoded)"
    by fastforce
  ultimately have "one_pass P (decoder_new P) [] (concat chunks) e = (xs, Inr ())"
    using assms(7) by (simp add: one_pass_def)
  with stream_events [OF assms(1-6), of P] have ev: "events (streamPersonalWebsite P E) = (xs, Inr ())"
    by simp
  then show ?thesis
    by (simp add: on_connection_open)
qed

theorem sentinel_halts_processing_witness:
  \<open>events (streamPersonalWebsite sample_platform (sample_env sentinel_stream)) =
     ([lit ''Hi''], Inr ())
   \<and> on_connection sample_platform (sample_env sentinel_stream) = [Chunk (lit ''Hi''), Done]\<close>
proof -
  have key: "apiKey (sample_env sentinel_stream) = Some (lit ''key'')" "lit ''key'' \<noteq> []"
    by (simp_all add: sample_env_def lit_def)
  have not_aborted: "abort_at (sample_env sentinel_stream) = None"
    by (simp add: sample_env_def)
  have fetched: "fetch_result (sample_env sentinel_stream) = Inr (sample_response sentinel_stream)"
    by (simp add: sample_env_def)
  have ok: "ok (sample_response sentinel_stream)"
    by (simp add: sample_response_def)
  have body: "body (sample_response sentinel_stream) = Some (sentinel_stream, EndOfStream)"
    by (simp add: sample_response_def)
  have decoded: \<open>snd (decode sample_platform (decoder_new sample_platform) (concat sentinel_stream)) =
      lit ''data: {"text":"Hi"}\<newline>\<newline>'' @ lit ''data: [DONE]'' @ DELIMITER
        @ lit ''data: {"text":"late"}\<newline>\<newline>''\<close>
    by (simp add: sample_platform_def sentinel_stream_def lit_def DELIMITER_def LF_def)
  have before: \<open>processBuffer sample_platform (lit ''data: {"text":"Hi"}\<newline>\<newline>'') =
      ([lit ''Hi''], Inr (False, []))\<close>
    by (simp add: eval_simps)
  have frame: "indexOf (lit ''data: [DONE]'' @ DELIMITER) DELIMITER = Some (length (lit ''data: [DONE]''))"
    by (simp add: lit_def DELIMITER_def LF_def)
  have sentinel: "extract_payload (lit ''data: [DONE]'') = lit ''[DONE]''"
    by (simp add: extract_payload_def lit_def LF_def trim_def trim_end_def is_space_def
        startsWith_def replace_data_def)
  have open_socket: "\<forall>t. socket_open (sample_env sentinel_stream) t"
    by (simp add: sample_env_def)
  from sentinel_halts_processing [OF key not_aborted fetched ok body decoded before frame sentinel]
    open_socket
  show ?thesis by simp
qed

text \<open>
  C4. The claim (every frame with the discriminant of an upstream error ends the session
  with an \<^verbatim>\<open>error\<close> message that carries the embedded message, or a default one) does
  not hold of the source; this is the source at an input where they part. A frame that
  carries the discriminant \<^verbatim>\<open>response.error\<close> and the embedded message \<^verbatim>\<open>boom\<close> makes line 195
  throw \<^verbatim>\<open>new Error('boom')\<close>; the \<^verbatim>\<open>catch\<close> block of lines 197-210 throws again only
  a message that includes \<^verbatim>\<open>'OpenAPI service returned'\<close>, so the error is dropped and
  the connection ends with \<^verbatim>\<open>done\<close>. Without an embedded message the default message
  holds that text and is forwarded as an \<^verbatim>\<open>error\<close> message.
\<close>

theorem embedded_error_message_swallowed:
  \<open>on_connection sample_platform
     (sample_env [''data: {"type":"response.error","error":{"message":"boom"}}\<newline>\<newline>'']) = [Done]
   \<and> on_connection sample_platform (sample_env [''data: {"type":"response.error"}\<newline>\<newline>'']) =
       [Error (lit ''The OpenAPI service returned an unknown error.'')]\<close>
  by (simp add: eval_simps)

text \<open>
  C5. Cancellation silence. Let the \<^verbatim>\<open>close\<close> handler have aborted the request before
  \<^verbatim>\<open>await\<close> \<open>k\<close> settled, the socket be no longer open from then on, and the stream
  function not have settled before. Then the stream function settles at \<open>k\<close>, with
  no further read, and every message the connection sends is a chunk message: no
  \<^verbatim>\<open>done\<close> and no \<^verbatim>\<open>error\<close> message is sent. (After an abort during a read the
  promise resolves and the handler calls \<^verbatim>\<open>sendPayload\<close> with the \<^verbatim>\<open>done\<close> payload;
  the test of \<^verbatim>\<open>readyState\<close> drops it.)
\<close>

theorem cancellation_silence:
  assumes "abort_at E = Some k" and "1 \<le> k"
    and "\<forall>t. k \<le> t \<longrightarrow> \<not> socket_open E t"
    and "k \<le> settled_at (streamPersonalWebsite P E)"
  shows "settled_at (streamPersonalWebsite P E) = k \<and> list_all is_chunk (on_connection P E)"
proof -
  have settled: "settled_at (streamPersonalWebsite P E) = k"
    using abort_settles [OF assms(1,2), of P] assms(4) by simp
  obtain calls r t where run: "streamPersonalWebsite P E = (calls, r, t)"
    by (cases "streamPersonalWebsite P E") auto
  with assms(4) have "k \<le> t" by (simp add: settled_at_def)
  with assms(3) have closed: "\<not> socket_open E t" by simp
  then have "(case r of Inr u \<Rightarrow> sendPayload E t Done | Inl error \<Rightarrow> on_rejected E t error) = []"
    by (cases r) (simp_all add: sendPayload_def on_rejected_def)
  then have "on_connection P E =
      map Chunk (map snd (filter (\<lambda>(t', chunk). socket_open E t') calls))"
    by (simp add: on_connection_def run sent_chunks)
  then have "list_all is_chunk (on_connection P E)"
    using list_all_chunks by metis
  with settled show ?thesis by simp
qed

theorem cancellation_silence_witness:
  "settled_at (streamPersonalWebsite sample_platform leaving_env) = 3
   \<and> on_connection sample_platform leaving_env = [Chunk (lit ''Hi'')]
   \<and> list_all is_chunk (on_connection sample_platform leaving_env)"
proof -
  have run: "streamPersonalWebsite sample_platform leaving_env = ([(2, lit ''Hi'')], Inr (), 3)"
    by (simp add: eval_simps leaving_env_def)
  have sent: "on_connection sample_platform leaving_env = [Chunk (lit ''Hi'')]"
    by (simp add: on_connection_def run sendPayload_def) (simp add: leaving_env_def)
  have aborted: "abort_at leaving_env = Some 3" "1 \<le> (3::nat)"
    by (simp_all add: leaving_env_def)
  have closed: "\<forall>t. 3 \<le> t \<longrightarrow> \<not> socket_open leaving_env t"
    by (simp add: leaving_env_def)
  have running: "3 \<le> settled_at (streamPersonalWebsite sample_platform leaving_env)"
    by (simp add: run settled_at_def)
  from cancellation_silence [OF aborted closed running] sent
  show ?thesis by simp
qed

text \<open>
  C6. The claim (a stream that ends with buffered text and no blank line after it still
  has that text processed as one final frame) does not hold of the source; this is the
  source at an input where they part. Lines 236-239 append the pending output of the
  decoder and call \<^verbatim>\<open>processBuffer\<close> once more, which extracts a frame only at a blank
  line: a stream that ends with the text of a well-formed frame and no blank line after
  it produces no chunk and the connection sends \<^verbatim>\<open>done\<close> alone, while the same text
  followed by the delimiter is forwarded as a chunk.
\<close>

theorem trailing_frame_not_flushed:
  \<open>events (streamPersonalWebsite sample_platform (sample_env [''data: {"text":"Hi"}''])) =
     ([], Inr ())
   \<and> on_connection sample_platform (sample_env [''data: {"text":"Hi"}'']) = [Done]
   \<and> on_connection sample_platform (sample_env [''data: {"text":"Hi"}\<newline>\<newline>'']) =
       [Chunk (lit ''Hi''), Done]\<close>
  by (simp add: eval_simps)

text \<open>
  C7, as amended. Let no \<^verbatim>\<open>SyntaxError\<close> of \<^verbatim>\<open>JSON.parse\<close> have a message that includes
  \<^verbatim>\<open>'OpenAPI service returned'\<close>, the text the \<^verbatim>\<open>catch\<close> block tests for. Then a
  frame whose payload \<^verbatim>\<open>JSON.parse\<close> rejects is skipped: \<^verbatim>\<open>processBuffer\<close> goes on
  with the rest of the buffer as if the frame were not there, so later frames are still
  classified and forwarded. This holds of every such payload, also of one meant as an
  error frame: no decode failure ends the session, and whatever \<^verbatim>\<open>processBuffer\<close>
  throws was thrown by the chain of tests on a payload that was decoded.
\<close>

theorem undecodable_frame_skipped:
  assumes "\<forall>s m. JSON_parse P s = Inl m \<longrightarrow> \<not> includes_str m (lit ''OpenAPI service returned'')"
  shows "(indexOf buffer DELIMITER = Some i \<longrightarrow>
            extract_payload (take i buffer) \<noteq> [] \<longrightarrow>
            extract_payload (take i buffer) \<noteq> lit ''[DONE]'' \<longrightarrow>
            JSON_parse P (extract_payload (take i buffer)) = Inl m \<longrightarrow>
            processBuffer P buffer = processBuffer P (drop (i + 2) buffer))
     \<and> (processBuffer P stream = (xs, Inl e) \<longrightarrow>
            (\<exists>payload parsed. JSON_parse P payload = Inr parsed \<and> dispatch P parsed = Inl e))"
proof -
  have "processBuffer P buffer = processBuffer P (drop (i + 2) buffer)"
    if "indexOf buffer DELIMITER = Some i"
      and "extract_payload (take i buffer) \<noteq> []"
      and "extract_payload (take i buffer) \<noteq> lit ''[DONE]''"
      and "JSON_parse P (extract_payload (take i buffer)) = Inl m"
  proof -
    from assms that(4) have "\<not> rethrown (ErrorObj (lit ''SyntaxError'') m)"
      by (simp add: rethrown_def)
    with that show ?thesis
      by (subst processBuffer.simps) (simp add: try_block_def)
  qed
  moreover have "\<exists>payload parsed. JSON_parse P payload = Inr parsed \<and> dispatch P parsed = Inl e"
    if "processBuffer P stream = (xs, Inl e)"
    using assms that by (rule thrown_after_decoding)
  ultimately show ?thesis by blast
qed

theorem undecodable_frame_skipped_witness:
  \<open>processBuffer sample_platform
     (lit ''data: {"type":"response.error","error":\<newline>\<newline>data: {"text":"Hi"}\<newline>\<newline>'') =
   processBuffer sample_platform (lit ''data: {"text":"Hi"}\<newline>\<newline>'')
   \<and> processBuffer sample_platform (lit ''data: {"text":"Hi"}\<newline>\<newline>'') =
       ([lit ''Hi''], Inr (False, []))
   \<and> (\<exists>payload parsed. JSON_parse sample_platform payload = Inr parsed
         \<and> dispatch sample_platform parsed = Inl (ErrorObj (lit ''Error'') DEFAULT_MESSAGE))\<close>
proof -
  let ?buffer = \<open>lit ''data: {"type":"response.error","error":\<newline>\<newline>data: {"text":"Hi"}\<newline>\<newline>''\<close>
  let ?payload = \<open>lit ''{"type":"response.error","error":''\<close>
  let ?stream = \<open>lit ''data: {"type":"response.error"}\<newline>\<newline>''\<close>
  have messages: "\<forall>s m. JSON_parse sample_platform s = Inl m \<longrightarrow>
      \<not> includes_str m (lit ''OpenAPI service returned'')"
    by (auto simp: sample_platform_def sample_parse_def includes_str_def lit_def
        split: if_splits)
  have frame: "indexOf ?buffer DELIMITER = Some 39"
    by (simp add: lit_def DELIMITER_def LF_def)
  have payload: "extract_payload (take 39 ?buffer) = ?payload"
    by (simp add: extract_payload_def lit_def LF_def trim_def trim_end_def is_space_def
        startsWith_def replace_data_def)
  have content: "?payload \<noteq> []" "?payload \<noteq> lit ''[DONE]''"
    by (simp_all add: lit_def)
  have rejected: "JSON_parse sample_platform ?payload = Inl (lit ''Unexpected end of JSON input'')"
    by (simp add: sample_platform_def sample_parse_def lit_def)
  have rest: \<open>drop (39 + 2) ?buffer = lit ''data: {"text":"Hi"}\<newline>\<newline>''\<close>
    by (simp add: lit_def)
  have thrown: "processBuffer sample_platform ?stream =
      ([], Inl (ErrorObj (lit ''Error'') DEFAULT_MESSAGE))"
    by (simp add: eval_simps)
  note inst = undecodable_frame_skipped [OF messages, where buffer = ?buffer and i = 39
      and m = "lit ''Unexpected end of JSON input''" and stream = ?stream and xs = "[]"
      and e = "ErrorObj (lit ''Error'') DEFAULT_MESSAGE"]
  from inst frame content rejected
  have "processBuffer sample_platform ?buffer =
      processBuffer sample_platform (drop (39 + 2) ?buffer)"
    by (simp only: payload simp_thms)
  then have \<open>processBuffer sample_platform ?buffer =
      processBuffer sample_platform (lit ''data: {"text":"Hi"}\<newline>\<newline>'')\<close>
    by (simp only: rest)
  moreover have \<open>processBuffer sample_platform (lit ''data: {"text":"Hi"}\<newline>\<newline>'') =
      ([lit ''Hi''], Inr (False, []))\<close>
    by (simp add: eval_simps)
  moreover from inst thrown
  have "\<exists>payload parsed. JSON_parse sample_platform payload = Inr parsed
      \<and> dispatch sample_platform parsed = Inl (ErrorObj (lit ''Error'') DEFAULT_MESSAGE)"
    by (simp only: simp_thms)
  ultimately show ?thesis by simp
qed

text \<open>
  C7 as stated fails: the payload of an error frame cut short is rejected by
  \<^verbatim>\<open>JSON.parse\<close>, and the failure is not promoted to an \<^verbatim>\<open>error\<close> message; the frame
  behind it is forwarded and the connection ends with \<^verbatim>\<open>done\<close>.
\<close>

theorem malformed_error_frame_not_promoted:
  "on_connection sample_platform (sample_env malformed_stream) = [Chunk (lit ''Hi''), Done]"
  by (simp add: eval_simps malformed_stream_def)

text \<open>
  C8, as amended. Every line of a raw event is trimmed of white space at both ends;
  the trimmed lines that begin with \<^verbatim>\<open>data:\<close> contribute, each without the prefix and
  without all the white space that follows it; they are joined with a line feed. A raw
  event with no such line has the empty payload, and a frame whose payload is empty
  produces no event: \<^verbatim>\<open>processBuffer\<close> goes on with the rest of the buffer.
\<close>

theorem payload_extraction:
  "extract_payload rawEvent =
     join [LF]
       (map (\<lambda>line. dropWhile is_space (drop 5 line))
         (filter (\<lambda>line. startsWith line (lit ''data:'')) (map trim (split_str LF rawEvent))))
   \<and> ((\<forall>line \<in> set (split_str LF rawEvent). \<not> startsWith (trim line) (lit ''data:'')) \<longrightarrow>
        extract_payload rawEvent = [])
   \<and> (indexOf buffer DELIMITER = Some i \<longrightarrow> extract_payload (take i buffer) = [] \<longrightarrow>
        processBuffer P buffer = processBuffer P (drop (i + 2) buffer))"
proof -
  have "map replace_data
          (filter (\<lambda>line. startsWith line (lit ''data:'')) (map trim (split_str LF rawEvent))) =
        map (\<lambda>line. dropWhile is_space (drop 5 line))
          (filter (\<lambda>line. startsWith line (lit ''data:'')) (map trim (split_str LF rawEvent)))"
    by (rule map_cong) (simp_all add: replace_data_kept)
  then have "extract_payload rawEvent =
     join [LF]
       (map (\<lambda>line. dropWhile is_space (drop 5 line))
         (filter (\<lambda>line. startsWith line (lit ''data:'')) (map trim (split_str LF rawEvent))))"
    by (simp only: extract_payload_def)
  moreover have "extract_payload rawEvent = []"
    if "\<forall>line \<in> set (split_str LF rawEvent). \<not> startsWith (trim line) (lit ''data:'')"
  proof -
    from that
    have "filter (\<lambda>line. startsWith line (lit ''data:'')) (map trim (split_str LF rawEvent)) = []"
      by (simp add: filter_empty_conv)
    then show ?thesis
      by (simp add: extract_payload_def)
  qed
  moreover have "indexOf buffer DELIMITER = Some i \<longrightarrow> extract_payload (take i buffer) = [] \<longrightarrow>
        processBuffer P buffer = processBuffer P (drop (i + 2) buffer)"
    by (subst processBuffer.simps) simp
  ultimately show ?thesis by blast
qed

theorem payload_extraction_witness:
  \<open>extract_payload (lit ''  data:   {"text":"Hi"}  '') = lit ''{"text":"Hi"}''
   \<and> extract_payload (lit '': keep-alive'') = []
   \<and> processBuffer sample_platform (lit '': keep-alive\<newline>\<newline>data: {"text":"Hi"}\<newline>\<newline>'') =
       processBuffer sample_platform (lit ''data: {"text":"Hi"}\<newline>\<newline>'')\<close>
proof -
  let ?buffer = \<open>lit '': keep-alive\<newline>\<newline>data: {"text":"Hi"}\<newline>\<newline>''\<close>
  have frame: "indexOf ?buffer DELIMITER = Some 12"
    by (simp add: lit_def DELIMITER_def LF_def)
  have raw: "take 12 ?buffer = lit '': keep-alive''"
    by (simp add: lit_def)
  have no_data: "\<forall>line \<in> set (split_str LF (lit '': keep-alive'')).
      \<not> startsWith (trim line) (lit ''data:'')"
    by (simp add: lit_def LF_def trim_def trim_end_def is_space_def startsWith_def)
  have rest: \<open>drop (12 + 2) ?buffer = lit ''data: {"text":"Hi"}\<newline>\<newline>''\<close>
    by (simp add: lit_def)
  from payload_extraction [where rawEvent = \<open>lit ''  data:   {"text":"Hi"}  ''\<close>
      and P = sample_platform and i = 12 and buffer = ?buffer]
  have first: \<open>extract_payload (lit ''  data:   {"text":"Hi"}  '') = lit ''{"text":"Hi"}''\<close>
    by (simp add: lit_def LF_def trim_def trim_end_def is_space_def startsWith_def)
  note inst = payload_extraction [where P = sample_platform and i = 12
      and rawEvent = "lit '': keep-alive''" and buffer = ?buffer]
  from inst no_data have empty: "extract_payload (lit '': keep-alive'') = []"
    by blast
  from inst frame empty
  have "processBuffer sample_platform ?buffer = processBuffer sample_platform (drop (12 + 2) ?buffer)"
    by (simp only: raw simp_thms)
  then have \<open>processBuffer sample_platform ?buffer =
      processBuffer sample_platform (lit ''data: {"text":"Hi"}\<newline>\<newline>'')\<close>
    by (simp only: rest)
  with first empty show ?thesis by simp
qed

text \<open>
  C8 as stated fails: with two spaces after the prefix the source strips both, where
  stripping the prefix and one space leaves one; and a line that begins with a space
  before \<^verbatim>\<open>data:\<close> contributes, where a line that does not begin with the prefix
  would not.
\<close>

theorem payload_differs_from_specified:
  "extract_payload (lit ''data:  x'') = lit ''x''
   \<and> payload_as_specified (lit ''data:  x'') = lit '' x''
   \<and> extract_payload (lit '' data: x'') = lit ''x''
   \<and> payload_as_specified (lit '' data: x'') = []"
  by (simp add: lit_def LF_def extract_payload_def trim_def trim_end_def is_space_def
      startsWith_def replace_data_def payload_as_specified_def strip_one_space_def)

text \<open>
  C9. When the initial request returns a response that is not \<^verbatim>\<open>ok\<close> or has no body,
  the request is not aborted and the socket is open when the failure is reported, the
  connection sends exactly one message, an \<^verbatim>\<open>error\<close> message, and no chunk message.
  Its text is \<^verbatim>\<open>OpenAPI request failed with status\<close>, the status in decimal, a colon,
  and a space and the body text of the response with the white space at the end removed.
\<close>

theorem request_failure_reported:
  assumes "apiKey E = Some key" and "key \<noteq> []"
    and "\<not> aborted (abort_at E) 2"
    and "fetch_result E = Inr r"
    and "\<not> ok r \<or> body r = None"
    and "socket_open E 2"
  shows "on_connection P E =
     [Error (lit ''OpenAPI request failed with status '' @ decimal (status r) @ lit '':''
             @ trim_end (lit '' '' @ (case text_result r of
                                        None \<Rightarrow> []
                                      | Some errorText \<Rightarrow> errorText)))]"
proof -
  from assms(3) have "\<not> aborted (abort_at E) 1"
    by (auto simp: aborted_def split: option.splits)
  with assms have "streamPersonalWebsite P E = ([], Inl (request_failed (abort_at E) r), 2)"
    by (auto simp: streamPersonalWebsite_def split: option.splits)
  with assms(3,6) show ?thesis
    by (simp add: on_connection_def on_rejected_def sendPayload_def request_failed_def
        is_AbortError_def lit_def [of "''Error''"] lit_def [of "''AbortError''"]
        request_failed_message)
qed

theorem request_failure_reported_witness:
  "on_connection sample_platform rejected_env =
     [Error (lit ''OpenAPI request failed with status 429: rate limited'')]"
proof -
  have key: "apiKey rejected_env = Some (lit ''key'')" "lit ''key'' \<noteq> []"
    by (simp_all add: rejected_env_def lit_def)
  have not_aborted: "\<not> aborted (abort_at rejected_env) 2"
    by (simp add: rejected_env_def aborted_def)
  have fetched: "fetch_result rejected_env = Inr rejected_response"
    by (simp add: rejected_env_def)
  have failed: "\<not> ok rejected_response \<or> body rejected_response = None"
    by (simp add: rejected_response_def)
  have open_socket: "socket_open rejected_env 2"
    by (simp add: rejected_env_def)
  from request_failure_reported [OF key not_aborted fetched failed open_socket, of sample_platform]
  show ?thesis
    by (simp add: rejected_response_def lit_def trim_end_def is_space_def decimal.simps)
qed




end
